theory Spec2Isabelle
  imports Main "HOL-Library.Word"
begin

section \<open>Resource hosting coordinator (ResourceHosting.cpp)\<close>

subsection \<open>Exceptions and pointers\<close>

text \<open>
  The failures the coordinator can meet. \<open>PlatformException\<close> and
  \<open>InvalidParameterException\<close> are the two classes named in the handlers of
  \<open>startHosting\<close>; \<open>OutOfRange\<close> is \<open>std::out_of_range\<close>, thrown by
  \<open>std::string::compare\<close>; \<open>OtherException\<close> stands for any other C++ exception,
  told apart by a tag. Dereferencing a null pointer is undefined behaviour in C++; the
  model makes it the visible failure \<open>NullDereference\<close>, and \<open>InvalidPointer\<close> is a
  non-null pointer with no object behind it.
\<close>

datatype exn =
    PlatformException
  | InvalidParameterException
  | OutOfRange
  | OtherException nat
  | NullDereference
  | InvalidPointer

type_synonym size_t = "64 word"

subsection \<open>Remote resource descriptors\<close>

text \<open>
  Modelled from the spec: the class behind \<open>RemoteObjectPtr\<close> is declared outside the
  translated sources. The descriptor carries the transport address, the URI path, the
  advertised type tags, the observability flag and a resource-instance identifier; the
  fields are named after the accessors the coordinator calls.
\<close>

record RemoteObject =
  getAddress :: string
  getUri :: string
  getTypes :: "string list"
  isObservable :: bool
  getID :: nat

text \<open>A \<open>std::shared_ptr\<close> to a descriptor; \<open>None\<close> is \<open>nullptr\<close>.\<close>

type_synonym RemoteObjectPtr = "RemoteObject option"

subsection \<open>Hosting objects\<close>

text \<open>
  A \<open>HostingObjectPtr\<close> is a shared pointer to a hosting object on the free store:
  \<open>None\<close> is \<open>nullptr\<close>, \<open>Some a\<close> points to the object at address \<open>a\<close>. Two
  pointers are equal exactly when they hold the same address, as \<open>operator==\<close> on
  \<open>std::shared_ptr\<close> decides.
\<close>

type_synonym HostingObjectPtr = "nat option"

text \<open>
  The termination callback: an empty \<open>std::function\<close>, or
  \<open>std::bind(&ResourceHosting::destroyedHostingObject, this, p)\<close>.
\<close>

datatype DestroyedCallback = EmptyCallback | BoundDestroyed HostingObjectPtr

text \<open>
  Modelled from the spec: class \<open>HostingObject\<close> is declared and defined outside the
  translated sources. A hosting object wraps one descriptor and one termination callback;
  a freshly constructed one holds neither.
\<close>

record HostingObject =
  remoteObject :: RemoteObjectPtr
  pDestroyCB :: DestroyedCallback

definition new_HostingObject :: HostingObject where
  "new_HostingObject = \<lparr>remoteObject = None, pDestroyCB = EmptyCallback\<rparr>"

text \<open>
  Modelled from the spec: \<open>HostingObject::initializeHostingObject\<close> binds the object to
  the descriptor and arms the termination callback.
\<close>

definition initializeHostingObject ::
    "HostingObject \<Rightarrow> RemoteObjectPtr \<Rightarrow> DestroyedCallback \<Rightarrow> HostingObject" where
  "initializeHostingObject obj rResource destroyCB =
     obj\<lparr>remoteObject := rResource, pDestroyCB := destroyCB\<rparr>"

text \<open>
  Modelled from the spec: \<open>HostingObject::getRemoteResource\<close> returns the bound
  descriptor.
\<close>

definition getRemoteResource :: "HostingObject \<Rightarrow> RemoteObjectPtr" where
  "getRemoteResource obj = remoteObject obj"

subsection \<open>Presence subscription\<close>

datatype OCConnectivityType = CT_DEFAULT

text \<open>
  Modelled from the spec: class \<open>PresenceSubscriber\<close> is declared outside the translated
  sources. A handle is either unsubscribed or subscribed to one host and scope;
  \<open>unsubscribe\<close> on an unsubscribed handle does nothing.
\<close>

datatype PresenceSubscriber = Unsubscribed | Subscribed string OCConnectivityType

definition isSubscribing :: "PresenceSubscriber \<Rightarrow> bool" where
  "isSubscribing h = (h \<noteq> Unsubscribed)"

definition unsubscribe :: "PresenceSubscriber \<Rightarrow> PresenceSubscriber" where
  "unsubscribe h = Unsubscribed"

subsection \<open>Coordinator state and collaborators\<close>

text \<open>One call of \<open>discoveryManager->discoverResource(host, uri, type, pDiscoveryCB)\<close>.\<close>

record DiscoveryQuery =
  query_host :: string
  query_uri :: string
  query_type :: OCConnectivityType

text \<open>
  The members of the coordinator that its operations change (\<open>presenceHandle\<close>,
  \<open>hostingObjectList\<close>), together with what they act on: the free store of hosting
  objects with the next unused address, the queries handed to the discovery manager, and
  the lines written to \<open>std::cout\<close>.
\<close>

record ResourceHosting =
  presenceHandle :: PresenceSubscriber
  hostingObjectList :: "HostingObjectPtr list"
  store :: "nat \<Rightarrow> HostingObject option"
  next_free :: nat
  discoveryQueries :: "DiscoveryQuery list"
  cout :: "string list"

text \<open>
  The collaborators, taken as parameters: the two string macros of the stack headers,
  the outcome of constructing a \<open>PresenceSubscriber\<close> and the outcome of
  \<open>DiscoveryManager::discoverResource\<close> (\<open>None\<close>: returns normally, \<open>Some e\<close>: throws
  \<open>e\<close>).
\<close>

record Collaborators =
  OC_MULTICAST_PREFIX :: string
  OC_MULTICAST_DISCOVERY_URI :: string
  subscribePresence :: "string \<Rightarrow> OCConnectivityType \<Rightarrow> exn option"
  discoverResource :: "DiscoveryQuery \<Rightarrow> exn option"

definition HOSTING_TAG :: string where
  "HOSTING_TAG = ''/hosting''"

definition HOSTING_TAG_SIZE :: size_t where
  "HOSTING_TAG_SIZE = 8"

definition empty_state :: ResourceHosting where
  "empty_state =
     \<lparr>presenceHandle = Unsubscribed, hostingObjectList = [], store = (\<lambda>a. None),
      next_free = 0, discoveryQueries = [], cout = []\<rparr>"

subsection \<open>std::string::compare\<close>

text \<open>
  Three-way comparison of two byte strings, as \<open>char_traits::compare\<close> followed by the
  comparison of the lengths; only the sign of the result is specified.
\<close>

fun traits_compare :: "string \<Rightarrow> string \<Rightarrow> int" where
  "traits_compare [] [] = 0"
| "traits_compare [] (y # ys) = - 1"
| "traits_compare (x # xs) [] = 1"
| "traits_compare (x # xs) (y # ys) =
     (if (of_char x :: nat) < of_char y then - 1
      else if (of_char y :: nat) < of_char x then 1
      else traits_compare xs ys)"

text \<open>
  \<open>str.compare(pos, len, s)\<close>: throws \<open>std::out_of_range\<close> when \<open>pos > str.size()\<close>,
  otherwise compares the substring of at most \<open>len\<close> characters from \<open>pos\<close> with \<open>s\<close>.
\<close>

definition string_size :: "string \<Rightarrow> size_t" where
  "string_size str = of_nat (length str)"

definition string_compare :: "string \<Rightarrow> size_t \<Rightarrow> size_t \<Rightarrow> string \<Rightarrow> exn + int" where
  "string_compare str pos len s =
     (if unat pos > length str then Inl OutOfRange
      else Inr (traits_compare
                 (take (min (unat len) (length str - unat pos)) (drop (unat pos) str)) s))"

subsection \<open>Deduplication lookup\<close>

definition isSameRemoteResource :: "RemoteObjectPtr \<Rightarrow> RemoteObjectPtr \<Rightarrow> exn + bool" where
  "isSameRemoteResource remoteResource_1 remoteResource_2 =
     (case remoteResource_1 of
        None \<Rightarrow> Inl NullDereference
      | Some r1 \<Rightarrow>
          (case remoteResource_2 of
             None \<Rightarrow> Inl NullDereference
           | Some r2 \<Rightarrow>
               Inr (if getAddress r1 = getAddress r2 \<and> getUri r1 = getUri r2
                    then True else False)))"

text \<open>\<open>it->\<close> on a hosting object pointer.\<close>

definition load :: "(nat \<Rightarrow> HostingObject option) \<Rightarrow> HostingObjectPtr \<Rightarrow> exn + HostingObject" where
  "load h p =
     (case p of
        None \<Rightarrow> Inl NullDereference
      | Some a \<Rightarrow> (case h a of None \<Rightarrow> Inl InvalidPointer | Some obj \<Rightarrow> Inr obj))"

text \<open>
  The loop of \<open>findRemoteResource\<close> over the rest of the list, with the current value of
  \<open>retObject\<close>: a later match overwrites an earlier one, and the loop never breaks.
\<close>

fun findRemoteResource_loop ::
    "(nat \<Rightarrow> HostingObject option) \<Rightarrow> HostingObjectPtr list \<Rightarrow> RemoteObjectPtr \<Rightarrow>
     HostingObjectPtr \<Rightarrow> exn + HostingObjectPtr" where
  "findRemoteResource_loop h [] remoteResource retObject = Inr retObject"
| "findRemoteResource_loop h (it # rest) remoteResource retObject =
     (case load h it of
        Inl e \<Rightarrow> Inl e
      | Inr obj \<Rightarrow>
          (let inListPtr = getRemoteResource obj in
           if inListPtr \<noteq> None then
             (case isSameRemoteResource inListPtr remoteResource of
                Inl e \<Rightarrow> Inl e
              | Inr same \<Rightarrow>
                  findRemoteResource_loop h rest remoteResource
                    (if same then it else retObject))
           else findRemoteResource_loop h rest remoteResource retObject))"

definition findRemoteResource :: "ResourceHosting \<Rightarrow> RemoteObjectPtr \<Rightarrow> exn + HostingObjectPtr" where
  "findRemoteResource s remoteResource =
     findRemoteResource_loop (store s) (hostingObjectList s) remoteResource None"

subsection \<open>Discovery-candidate handler\<close>

text \<open>
  The handler returns normally (\<open>Inr ()\<close>) or throws (\<open>Inl e\<close>); the coordinator state
  after the call is returned in both cases. Every throw happens before the first write.
  On admission the new hosting object takes the next unused address of the free store.
\<close>

definition discoverHandler ::
    "ResourceHosting \<Rightarrow> RemoteObjectPtr \<Rightarrow> (exn + unit) \<times> ResourceHosting" where
  "discoverHandler s remoteResource =
     (case remoteResource of
        None \<Rightarrow> (Inl NullDereference, s)
      | Some r \<Rightarrow>
          (let discoverdUri = getUri r in
           case string_compare discoverdUri
                  (string_size discoverdUri - HOSTING_TAG_SIZE) HOSTING_TAG_SIZE HOSTING_TAG of
             Inl e \<Rightarrow> (Inl e, s)
           | Inr c \<Rightarrow>
               if c \<noteq> 0 then (Inr (), s)
               else
                 (case findRemoteResource s remoteResource of
                    Inl e \<Rightarrow> (Inl e, s)
                  | Inr foundHostingObject \<Rightarrow>
                      if foundHostingObject = None then
                        (let a = next_free s;
                             foundHostingObject = Some a;
                             obj = initializeHostingObject new_HostingObject remoteResource
                                     (BoundDestroyed foundHostingObject)
                         in (Inr (),
                             s\<lparr>store := (store s)(a := Some obj),
                               next_free := Suc a,
                               hostingObjectList := hostingObjectList s @ [foundHostingObject]\<rparr>))
                      else (Inr (), s))))"

text \<open>
  A sequence of handler invocations, one per candidate. An invocation that throws has
  written nothing, and the next candidate meets the state it left.
\<close>

fun discoverAll :: "ResourceHosting \<Rightarrow> RemoteObjectPtr list \<Rightarrow> ResourceHosting" where
  "discoverAll s [] = s"
| "discoverAll s (c # cs) = discoverAll (snd (discoverHandler s c)) cs"

subsection \<open>Removal entry point\<close>

text \<open>
  \<open>std::find\<close> as the position of the first element equal to the value, the length of
  the list standing for \<open>end()\<close>; \<open>erase\<close> removes the element at a position.
\<close>

fun std_find :: "'a list \<Rightarrow> 'a \<Rightarrow> nat" where
  "std_find [] v = 0"
| "std_find (x # xs) v = (if x = v then 0 else Suc (std_find xs v))"

fun erase :: "'a list \<Rightarrow> nat \<Rightarrow> 'a list" where
  "erase [] i = []"
| "erase (x # xs) 0 = xs"
| "erase (x # xs) (Suc i) = x # erase xs i"

definition destroyedHostingObject :: "ResourceHosting \<Rightarrow> HostingObjectPtr \<Rightarrow> ResourceHosting" where
  "destroyedHostingObject s destroyedPtr =
     (let foundObjectIter = std_find (hostingObjectList s) destroyedPtr in
      if foundObjectIter \<noteq> length (hostingObjectList s) then
        s\<lparr>cout := cout s @ [''destroy hosting object.'' @ [CHR 0x0A]],
          hostingObjectList := erase (hostingObjectList s) foundObjectIter\<rparr>
      else s)"

subsection \<open>Stopping\<close>

text \<open>\<open>reset()\<close> on a shared pointer variable: the variable becomes \<open>nullptr\<close>.\<close>

definition reset :: "HostingObjectPtr \<Rightarrow> HostingObjectPtr" where
  "reset p = None"

text \<open>
  The loop \<open>for(auto it : hostingObjectList) it.reset();\<close> over the rest of the
  list. The loop variable is declared \<open>auto\<close>, not \<open>auto&\<close>: each round copies the
  element into the local \<open>it\<close> and resets the copy; nothing is written to the
  coordinator.
\<close>

fun stopHosting_loop :: "ResourceHosting \<Rightarrow> HostingObjectPtr list \<Rightarrow> ResourceHosting" where
  "stopHosting_loop s [] = s"
| "stopHosting_loop s (x # rest) =
     (let it = x; it = reset it in stopHosting_loop s rest)"

definition stopHosting :: "ResourceHosting \<Rightarrow> ResourceHosting" where
  "stopHosting s =
     (let s1 = (if isSubscribing (presenceHandle s)
                then s\<lparr>presenceHandle := unsubscribe (presenceHandle s)\<rparr> else s)
      in stopHosting_loop s1 (hostingObjectList s1))"

subsection \<open>Discovery requests\<close>

definition requestDiscovery ::
    "Collaborators \<Rightarrow> ResourceHosting \<Rightarrow> string \<Rightarrow> (exn + unit) \<times> ResourceHosting" where
  "requestDiscovery env s addr =
     (let host = addr;
          uri = OC_MULTICAST_DISCOVERY_URI env @ ''?rt=Resource.Hosting'';
          ctype = CT_DEFAULT;
          q = \<lparr>query_host = host, query_uri = uri, query_type = ctype\<rparr>;
          s1 = s\<lparr>discoveryQueries := discoveryQueries s @ [q]\<rparr>
      in case discoverResource env q of
           None \<Rightarrow> (Inr (), s1)
         | Some e \<Rightarrow> (Inl e, s1))"

text \<open>
  Modelled from the spec: the default argument of \<open>requestDiscovery\<close> is given in the
  header, outside the translated sources; the sweep is unrestricted, so the host is the
  empty string.
\<close>

definition requestMulticastDiscovery ::
    "Collaborators \<Rightarrow> ResourceHosting \<Rightarrow> (exn + unit) \<times> ResourceHosting" where
  "requestMulticastDiscovery env s = requestDiscovery env s []"

subsection \<open>Starting\<close>

text \<open>
  The constructor of \<open>PresenceSubscriber\<close> either throws, and then the assignment to
  \<open>presenceHandle\<close> does not happen and \<open>catch(...)\<close> rethrows, or yields a subscribed
  handle.
\<close>

definition requestMulticastPresence ::
    "Collaborators \<Rightarrow> ResourceHosting \<Rightarrow> (exn + unit) \<times> ResourceHosting" where
  "requestMulticastPresence env s =
     (let host = ''coap://'' @ OC_MULTICAST_PREFIX env in
      case subscribePresence env host CT_DEFAULT of
        Some e \<Rightarrow> (Inl e, s)
      | None \<Rightarrow> (Inr (), s\<lparr>presenceHandle := Subscribed host CT_DEFAULT\<rparr>))"

text \<open>
  The two handlers of \<open>startHosting\<close> rethrow what they catch; an exception of any other
  class passes them by.
\<close>

definition startHosting_catch :: "exn \<Rightarrow> ResourceHosting \<Rightarrow> (exn + unit) \<times> ResourceHosting" where
  "startHosting_catch e s =
     (case e of
        PlatformException \<Rightarrow> (Inl PlatformException, s)
      | InvalidParameterException \<Rightarrow> (Inl InvalidParameterException, s)
      | _ \<Rightarrow> (Inl e, s))"

definition startHosting ::
    "Collaborators \<Rightarrow> ResourceHosting \<Rightarrow> (exn + unit) \<times> ResourceHosting" where
  "startHosting env s =
     (case requestMulticastPresence env s of
        (Inl e, s1) \<Rightarrow> startHosting_catch e s1
      | (Inr u, s1) \<Rightarrow>
          (case requestMulticastDiscovery env s1 of
             (Inl e, s2) \<Rightarrow> startHosting_catch e s2
           | (Inr v, s2) \<Rightarrow> (Inr (), s2)))"

subsection \<open>Liveness-event handler\<close>

text \<open>
  The result classes named by the \<open>switch\<close> of \<open>presenceHandler\<close>; \<open>OC_STACK_other v\<close>
  is any value \<open>v\<close> of the enumeration type that none of the labels names, the
  \<open>default\<close> branch.
\<close>

datatype OCStackResult =
    OC_STACK_OK
  | OC_STACK_CONTINUE
  | OC_STACK_RESOURCE_CREATED
  | OC_STACK_RESOURCE_DELETED
  | OC_STACK_COMM_ERROR
  | OC_STACK_TIMEOUT
  | OC_STACK_PRESENCE_STOPPED
  | OC_STACK_PRESENCE_TIMEOUT
  | OC_STACK_PRESENCE_DO_NOT_HANDLE
  | OC_STACK_ERROR
  | OC_STACK_INVALID_URI
  | OC_STACK_INVALID_QUERY
  | OC_STACK_INVALID_IP
  | OC_STACK_INVALID_PORT
  | OC_STACK_INVALID_CALLBACK
  | OC_STACK_INVALID_METHOD
  | OC_STACK_INVALID_PARAM
  | OC_STACK_INVALID_OBSERVE_PARAM
  | OC_STACK_NO_MEMORY
  | OC_STACK_ADAPTER_NOT_ENABLED
  | OC_STACK_NOTIMPL
  | OC_STACK_NO_RESOURCE
  | OC_STACK_RESOURCE_ERROR
  | OC_STACK_SLOW_RESOURCE
  | OC_STACK_DUPLICATE_REQUEST
  | OC_STACK_NO_OBSERVERS
  | OC_STACK_OBSERVER_NOT_FOUND
  | OC_STACK_INVALID_OPTION
  | OC_STACK_VIRTUAL_DO_NOT_HANDLE
  | OC_STACK_MALFORMED_RESPONSE
  | OC_STACK_PERSISTENT_BUFFER_REQUIRED
  | OC_STACK_INVALID_REQUEST_HANDLE
  | OC_STACK_INVALID_DEVICE_INFO
  | OC_STACK_INVALID_JSON
  | OC_STACK_other int

definition presenceHandler ::
    "Collaborators \<Rightarrow> ResourceHosting \<Rightarrow> OCStackResult \<Rightarrow> 32 word \<Rightarrow> string \<Rightarrow>
     (exn + unit) \<times> ResourceHosting" where
  "presenceHandler env s ret seq addr =
     (case ret of
        OC_STACK_OK \<Rightarrow> requestDiscovery env s addr
      | OC_STACK_CONTINUE \<Rightarrow> requestDiscovery env s addr
      | OC_STACK_RESOURCE_CREATED \<Rightarrow> requestDiscovery env s addr
      | OC_STACK_RESOURCE_DELETED \<Rightarrow> (Inr (), s)
      | OC_STACK_COMM_ERROR \<Rightarrow> (Inr (), s)
      | OC_STACK_TIMEOUT \<Rightarrow> (Inr (), s)
      | OC_STACK_PRESENCE_STOPPED \<Rightarrow> (Inr (), s)
      | OC_STACK_PRESENCE_TIMEOUT \<Rightarrow> (Inr (), s)
      | OC_STACK_PRESENCE_DO_NOT_HANDLE \<Rightarrow> (Inr (), s)
      | OC_STACK_ERROR \<Rightarrow> (Inr (), s)
      | OC_STACK_INVALID_URI \<Rightarrow> (Inr (), s)
      | OC_STACK_INVALID_QUERY \<Rightarrow> (Inr (), s)
      | OC_STACK_INVALID_IP \<Rightarrow> (Inr (), s)
      | OC_STACK_INVALID_PORT \<Rightarrow> (Inr (), s)
      | OC_STACK_INVALID_CALLBACK \<Rightarrow> (Inr (), s)
      | OC_STACK_INVALID_METHOD \<Rightarrow> (Inr (), s)
      | OC_STACK_INVALID_PARAM \<Rightarrow> (Inr (), s)
      | OC_STACK_INVALID_OBSERVE_PARAM \<Rightarrow> (Inr (), s)
      | OC_STACK_NO_MEMORY \<Rightarrow> (Inr (), s)
      | OC_STACK_ADAPTER_NOT_ENABLED \<Rightarrow> (Inr (), s)
      | OC_STACK_NOTIMPL \<Rightarrow> (Inr (), s)
      | OC_STACK_NO_RESOURCE \<Rightarrow> (Inr (), s)
      | OC_STACK_RESOURCE_ERROR \<Rightarrow> (Inr (), s)
      | OC_STACK_SLOW_RESOURCE \<Rightarrow> (Inr (), s)
      | OC_STACK_DUPLICATE_REQUEST \<Rightarrow> (Inr (), s)
      | OC_STACK_NO_OBSERVERS \<Rightarrow> (Inr (), s)
      | OC_STACK_OBSERVER_NOT_FOUND \<Rightarrow> (Inr (), s)
      | OC_STACK_INVALID_OPTION \<Rightarrow> (Inr (), s)
      | OC_STACK_VIRTUAL_DO_NOT_HANDLE \<Rightarrow> (Inr (), s)
      | OC_STACK_MALFORMED_RESPONSE \<Rightarrow> (Inr (), s)
      | OC_STACK_PERSISTENT_BUFFER_REQUIRED \<Rightarrow> (Inr (), s)
      | OC_STACK_INVALID_REQUEST_HANDLE \<Rightarrow> (Inr (), s)
      | OC_STACK_INVALID_DEVICE_INFO \<Rightarrow> (Inr (), s)
      | OC_STACK_INVALID_JSON \<Rightarrow> (Inr (), s)
      | OC_STACK_other v \<Rightarrow> (Inr (), s))"

subsection \<open>Singleton accessor\<close>

text \<open>
  The members that \<open>initializeResourceHosting\<close> sets: the two bound callbacks and the
  discovery manager (\<open>True\<close>: set).
\<close>

record CoordinatorMembers =
  pPresenceCB :: bool
  pDiscoveryCB :: bool
  discoveryManager :: bool

text \<open>
  The static members \<open>s_instance\<close> and \<open>s_mutexForCreation\<close> (\<open>True\<close>: locked), the
  coordinators constructed so far (the address of a coordinator is its position), and a
  count of the runs of \<open>initializeResourceHosting\<close>.
\<close>

record Process =
  s_instance :: "nat option"
  s_mutexForCreation :: bool
  coordinators :: "CoordinatorMembers list"
  initializeCalls :: nat

definition initial_process :: Process where
  "initial_process =
     \<lparr>s_instance = None, s_mutexForCreation = False, coordinators = [], initializeCalls = 0\<rparr>"

text \<open>\<open>lock()\<close> on a mutex that is held never returns: \<open>None\<close>.\<close>

definition lock :: "Process \<Rightarrow> Process option" where
  "lock p = (if s_mutexForCreation p then None else Some (p\<lparr>s_mutexForCreation := True\<rparr>))"

definition unlock :: "Process \<Rightarrow> Process" where
  "unlock p = p\<lparr>s_mutexForCreation := False\<rparr>"

text \<open>\<open>s_instance = new ResourceHosting()\<close>.\<close>

definition new_ResourceHosting :: "Process \<Rightarrow> Process" where
  "new_ResourceHosting p =
     p\<lparr>coordinators := coordinators p @
          [\<lparr>pPresenceCB = False, pDiscoveryCB = False, discoveryManager = False\<rparr>],
       s_instance := Some (length (coordinators p))\<rparr>"

text \<open>\<open>s_instance->initializeResourceHosting()\<close>; the coordinator just constructed exists.\<close>

definition initializeResourceHosting :: "Process \<Rightarrow> Process" where
  "initializeResourceHosting p =
     (case s_instance p of
        None \<Rightarrow> p
      | Some a \<Rightarrow>
          p\<lparr>coordinators := (coordinators p)
               [a := \<lparr>pPresenceCB = True, pDiscoveryCB = True, discoveryManager = True\<rparr>],
            initializeCalls := Suc (initializeCalls p)\<rparr>)"

definition getInstance :: "Process \<Rightarrow> (nat option \<times> Process) option" where
  "getInstance p =
     (if s_instance p = None then
        (case lock p of
           None \<Rightarrow> None
         | Some p1 \<Rightarrow>
             (let p2 = (if s_instance p1 = None
                        then initializeResourceHosting (new_ResourceHosting p1) else p1);
                  p3 = unlock p2
              in Some (s_instance p3, p3)))
      else Some (s_instance p, p))"

text \<open>\<open>n\<close> calls of \<open>getInstance\<close> in a row, with the pointers they return.\<close>

fun getInstance_calls :: "nat \<Rightarrow> Process \<Rightarrow> (nat option list \<times> Process) option" where
  "getInstance_calls 0 p = Some ([], p)"
| "getInstance_calls (Suc n) p =
     (case getInstance p of
        None \<Rightarrow> None
      | Some (r, p1) \<Rightarrow>
          (case getInstance_calls n p1 of
             None \<Rightarrow> None
           | Some (rs, p2) \<Rightarrow> Some (r # rs, p2)))"

subsection \<open>Registry predicates\<close>

text \<open>The descriptor wrapped by a registry entry, when the entry has one.\<close>

definition wrapped :: "ResourceHosting \<Rightarrow> HostingObjectPtr \<Rightarrow> RemoteObject option" where
  "wrapped s p =
     (case load (store s) p of Inl e \<Rightarrow> None | Inr obj \<Rightarrow> getRemoteResource obj)"

text \<open>The deduplication key of a descriptor.\<close>

definition dedup_key :: "RemoteObject \<Rightarrow> string \<times> string" where
  "dedup_key r = (getAddress r, getUri r)"

text \<open>Every entry of the list points to a hosting object of the free store.\<close>

definition valid_ptr :: "(nat \<Rightarrow> HostingObject option) \<Rightarrow> HostingObjectPtr \<Rightarrow> bool" where
  "valid_ptr h p = (case load h p of Inl e \<Rightarrow> False | Inr obj \<Rightarrow> True)"

definition entries_valid :: "ResourceHosting \<Rightarrow> bool" where
  "entries_valid s = list_all (valid_ptr (store s)) (hostingObjectList s)"

text \<open>The deduplication keys of the entries, in the order of the list.\<close>

definition registry_keys :: "ResourceHosting \<Rightarrow> (string \<times> string) option list" where
  "registry_keys s = map (\<lambda>p. map_option dedup_key (wrapped s p)) (hostingObjectList s)"

text \<open>
  The invariant of the registry: every entry is a pointer below the next unused address,
  every entry wraps a descriptor, and no key occurs twice.
\<close>

definition registry_inv :: "ResourceHosting \<Rightarrow> bool" where
  "registry_inv s =
     (list_all (\<lambda>p. case p of None \<Rightarrow> False | Some a \<Rightarrow> a < next_free s) (hostingObjectList s)
      \<and> list_all (\<lambda>k. k \<noteq> None) (registry_keys s)
      \<and> distinct (registry_keys s))"

subsection \<open>Example inputs\<close>

definition descriptor :: "string \<Rightarrow> string \<Rightarrow> RemoteObject" where
  "descriptor a u =
     \<lparr>getAddress = a, getUri = u, getTypes = [], isObservable = True, getID = 0\<rparr>"

definition light :: RemoteObject where
  "light = descriptor ''node-5683'' ''/a/light/hosting''"

definition fan :: RemoteObject where
  "fan = descriptor ''node-5683'' ''/b/fan/hosting''"

definition led :: RemoteObject where
  "led = descriptor ''node-5683'' ''/a/led''"

definition bare_tag :: RemoteObject where
  "bare_tag = descriptor ''node-9'' ''/hosting''"

text \<open>The registry after a sweep that delivers the light and the fan.\<close>

definition two_mirrors :: ResourceHosting where
  "two_mirrors = discoverAll empty_state [Some light, Some fan]"

text \<open>
  A registry whose first entry is a hosting object that was constructed and never
  initialized, so that it wraps no descriptor, and whose second entry wraps the light.
\<close>

definition with_unbound_entry :: ResourceHosting where
  "with_unbound_entry =
     \<lparr>presenceHandle = Unsubscribed, hostingObjectList = [Some 0, Some 1],
      store = (\<lambda>a. if a = 0 then Some new_HostingObject
                    else if a = 1 then Some \<lparr>remoteObject = Some light,
                                              pDestroyCB = BoundDestroyed (Some 1)\<rparr>
                    else None),
      next_free = 2, discoveryQueries = [], cout = []\<rparr>"

text \<open>Collaborators whose presence subscription fails with the given exception.\<close>

definition failing_subscription :: "exn \<Rightarrow> Collaborators" where
  "failing_subscription e =
     \<lparr>OC_MULTICAST_PREFIX = ''224.0.1.187:5683'', OC_MULTICAST_DISCOVERY_URI = ''/oic/res'',
      subscribePresence = (\<lambda>host ctype. Some e), discoverResource = (\<lambda>q. None)\<rparr>"

text \<open>Collaborators that never fail.\<close>

definition working :: Collaborators where
  "working =
     \<lparr>OC_MULTICAST_PREFIX = ''224.0.1.187:5683'', OC_MULTICAST_DISCOVERY_URI = ''/oic/res'',
      subscribePresence = (\<lambda>host ctype. None), discoverResource = (\<lambda>q. None)\<rparr>"

section \<open>Properties\<close>

subsection \<open>Strings and the tag filter\<close>

lemma traits_compare_eq: "traits_compare a b = 0 \<longleftrightarrow> a = b"
  by (induction a b rule: traits_compare.induct) auto

lemma compare_tag_only:
  "string_compare ''/hosting'' (string_size ''/hosting'' - HOSTING_TAG_SIZE) HOSTING_TAG_SIZE
     HOSTING_TAG = Inr 0"
  by (simp add: string_compare_def string_size_def HOSTING_TAG_SIZE_def HOSTING_TAG_def)

text \<open>
  A URI shorter than the tag: \<open>size() - HOSTING_TAG_SIZE\<close> wraps around to a position
  beyond the end of the string, and \<open>compare\<close> throws.
\<close>

lemma short_uri_throws:
  assumes "length (getUri r) < 8"
  shows "discoverHandler s (Some r) = (Inl OutOfRange, s)"
proof -
  let ?n = "length (getUri r)"
  have "unat (of_nat ?n - 8 :: 64 word) = 2 ^ 64 - 8 + ?n"
    using assms by (simp add: unat_sub_if' unat_of_nat)
  then have "unat (string_size (getUri r) - HOSTING_TAG_SIZE) > ?n"
    using assms by (simp add: string_size_def HOSTING_TAG_SIZE_def)
  then show ?thesis
    by (simp add: discoverHandler_def string_compare_def)
qed

text \<open>A URI of at least eight characters that does not end with the tag is dropped.\<close>

lemma long_uri_without_tag_dropped:
  assumes len: "8 \<le> length (getUri r)" and max: "length (getUri r) < 2 ^ 64"
    and tag: "drop (length (getUri r) - 8) (getUri r) \<noteq> ''/hosting''"
  shows "discoverHandler s (Some r) = (Inr (), s)"
proof -
  let ?u = "getUri r"
  let ?n = "length ?u"
  have pos: "unat (string_size ?u - 8) = ?n - 8"
    using len max by (simp add: string_size_def unat_sub_if' unat_of_nat)
  have "string_compare ?u (string_size ?u - HOSTING_TAG_SIZE) HOSTING_TAG_SIZE HOSTING_TAG
        = Inr (traits_compare (drop (?n - 8) ?u) ''/hosting'')"
    using len by (simp add: string_compare_def pos HOSTING_TAG_SIZE_def HOSTING_TAG_def)
  moreover have "traits_compare (drop (?n - 8) ?u) ''/hosting'' \<noteq> 0"
    using tag traits_compare_eq by blast
  ultimately show ?thesis
    by (simp add: discoverHandler_def Let_def)
qed

subsection \<open>The lookup\<close>

lemma same_key:
  "isSameRemoteResource (Some a) (Some b) = Inr (dedup_key a = dedup_key b)"
  by (simp add: isSameRemoteResource_def dedup_key_def)

lemma load_Inr_Some: "load h p = Inr obj \<Longrightarrow> \<exists>a. p = Some a \<and> h a = Some obj"
  by (auto simp: load_def split: option.splits)

lemma valid_ptr_load: "valid_ptr h p \<Longrightarrow> \<exists>obj. load h p = Inr obj"
  by (cases "load h p") (simp_all add: valid_ptr_def)

lemma wrapped_Some_iff:
  "wrapped s p = Some r \<longleftrightarrow>
     (\<exists>obj. load (store s) p = Inr obj \<and> getRemoteResource obj = Some r)"
  by (cases "load (store s) p") (auto simp: wrapped_def)

text \<open>Once \<open>retObject\<close> holds a match, the loop never returns \<open>nullptr\<close>.\<close>

lemma find_loop_acc_Some:
  "findRemoteResource_loop h L c (Some a) \<noteq> Inr None"
proof (induction L arbitrary: a)
  case Nil
  show ?case by simp
next
  case (Cons it rest)
  show ?case
  proof (cases "load h it")
    case (Inl e)
    then show ?thesis by simp
  next
    case (Inr obj)
    then obtain b where b: "it = Some b" using load_Inr_Some by blast
    show ?thesis
      using Inr b Cons.IH
      by (cases "isSameRemoteResource (getRemoteResource obj) c") (auto simp: Let_def)
  qed
qed

text \<open>A lookup that returns \<open>nullptr\<close> has met no entry with the key of the candidate.\<close>

lemma find_loop_None_no_match:
  "findRemoteResource_loop h L (Some r) acc = Inr None \<Longrightarrow> p \<in> set L \<Longrightarrow>
   load h p = Inr obj \<Longrightarrow> getRemoteResource obj = Some r' \<Longrightarrow> dedup_key r' \<noteq> dedup_key r"
proof (induction L arbitrary: acc)
  case Nil
  then show ?case by simp
next
  case (Cons it rest)
  from Cons.prems(1) obtain o1 where o1: "load h it = Inr o1"
    by (cases "load h it") auto
  then obtain b where b: "it = Some b" using load_Inr_Some by blast
  show ?case
  proof (cases "getRemoteResource o1")
    case None
    with Cons.prems o1 have "findRemoteResource_loop h rest (Some r) acc = Inr None"
      by (simp add: Let_def)
    moreover have "p \<in> set rest" using Cons.prems o1 None by auto
    ultimately show ?thesis using Cons.IH Cons.prems by blast
  next
    case (Some r1)
    show ?thesis
    proof (cases "dedup_key r1 = dedup_key r")
      case True
      then have "findRemoteResource_loop h (it # rest) (Some r) acc
                 = findRemoteResource_loop h rest (Some r) (Some b)"
        using o1 Some b by (simp add: Let_def same_key)
      then show ?thesis using Cons.prems(1) find_loop_acc_Some by metis
    next
      case False
      then have rec: "findRemoteResource_loop h rest (Some r) acc = Inr None"
        using Cons.prems(1) o1 Some by (simp add: Let_def same_key)
      show ?thesis
      proof (cases "p = it")
        case True
        then show ?thesis using Cons.prems o1 Some False by simp
      next
        case False
        then have "p \<in> set rest" using Cons.prems by simp
        then show ?thesis using Cons.IH rec Cons.prems by blast
      qed
    qed
  qed
qed

text \<open>Over entries none of which has the key of the candidate, \<open>retObject\<close> stays as it is.\<close>

lemma find_loop_no_match_acc:
  "\<forall>p \<in> set L. \<exists>obj. load h p = Inr obj \<and>
       (\<forall>r'. getRemoteResource obj = Some r' \<longrightarrow> dedup_key r' \<noteq> dedup_key r) \<Longrightarrow>
   findRemoteResource_loop h L (Some r) acc = Inr acc"
proof (induction L)
  case Nil
  show ?case by simp
next
  case (Cons it rest)
  then obtain obj where obj: "load h it = Inr obj"
    and nm: "\<forall>r'. getRemoteResource obj = Some r' \<longrightarrow> dedup_key r' \<noteq> dedup_key r"
    by auto
  have rest: "findRemoteResource_loop h rest (Some r) acc = Inr acc"
    using Cons by simp
  show ?case
  proof (cases "getRemoteResource obj")
    case None
    then show ?thesis using obj rest by simp
  next
    case (Some r')
    then have "dedup_key r' \<noteq> dedup_key r" using nm by simp
    then show ?thesis using obj Some rest
      by (simp add: same_key)
  qed
qed

text \<open>What the loop returns is the initial \<open>retObject\<close> or an entry that wraps a descriptor.\<close>

lemma find_loop_result:
  "findRemoteResource_loop h L c acc = Inr res \<Longrightarrow>
   res = acc \<or>
   (res \<in> set L \<and> (\<exists>obj r. load h res = Inr obj \<and> getRemoteResource obj = Some r))"
proof (induction L arbitrary: acc)
  case Nil
  then show ?case by simp
next
  case (Cons it rest)
  from Cons.prems obtain obj where obj: "load h it = Inr obj"
    by (cases "load h it") auto
  show ?case
  proof (cases "getRemoteResource obj")
    case None
    with Cons.prems obj have "findRemoteResource_loop h rest c acc = Inr res"
      by simp
    from Cons.IH [OF this] show ?thesis by auto
  next
    case (Some r')
    from Cons.prems obj Some obtain same where same: "isSameRemoteResource (Some r') c = Inr same"
      by (cases "isSameRemoteResource (Some r') c") auto
    with Cons.prems obj Some
    have "findRemoteResource_loop h rest c (if same then it else acc) = Inr res"
      by simp
    from Cons.IH [OF this] show ?thesis
      using obj Some by (auto split: if_splits)
  qed
qed

lemma find_loop_Inr_loads:
  "findRemoteResource_loop h L c acc = Inr res \<Longrightarrow> p \<in> set L \<Longrightarrow> \<exists>obj. load h p = Inr obj"
proof (induction L arbitrary: acc)
  case Nil
  then show ?case by simp
next
  case (Cons it rest)
  from Cons.prems obtain obj where obj: "load h it = Inr obj"
    by (cases "load h it") auto
  show ?case
  proof (cases "p = it")
    case True
    then show ?thesis using obj by simp
  next
    case False
    then have p: "p \<in> set rest" using Cons.prems by simp
    obtain acc' where "findRemoteResource_loop h rest c acc' = Inr res"
      using Cons.prems(1) obj
      by (cases "getRemoteResource obj"; cases "isSameRemoteResource (getRemoteResource obj) c")
         (auto simp: Let_def)
    then show ?thesis using Cons.IH p by blast
  qed
qed

lemma find_never_null_descriptor:
  assumes "p \<in> set (hostingObjectList s)" and "wrapped s p = None"
  shows "findRemoteResource s c \<noteq> Inr p"
proof
  assume f: "findRemoteResource s c = Inr p"
  then obtain obj where obj: "load (store s) p = Inr obj"
    using assms(1) find_loop_Inr_loads unfolding findRemoteResource_def by blast
  then have "p \<noteq> None" using load_Inr_Some by blast
  moreover have "getRemoteResource obj = None"
    using assms(2) obj by (simp add: wrapped_def)
  ultimately show False
    using find_loop_result [OF f [unfolded findRemoteResource_def]] obj by auto
qed

text \<open>Entries without a descriptor can be left out of the list without changing the lookup.\<close>

lemma find_loop_filter:
  "list_all (valid_ptr h) L \<Longrightarrow>
   findRemoteResource_loop h
     (filter (\<lambda>p. case load h p of Inl e \<Rightarrow> False
                   | Inr obj \<Rightarrow> getRemoteResource obj \<noteq> None) L) c acc
     = findRemoteResource_loop h L c acc"
proof (induction L arbitrary: acc)
  case Nil
  show ?case by simp
next
  case (Cons it rest)
  then obtain obj where obj: "load h it = Inr obj"
    using valid_ptr_load by fastforce
  have rest: "list_all (valid_ptr h) rest" using Cons.prems by simp
  show ?case
  proof (cases "getRemoteResource obj")
    case None
    then show ?thesis using obj Cons.IH [OF rest] by simp
  next
    case (Some r')
    then show ?thesis using obj Cons.IH [OF rest]
      by (cases "isSameRemoteResource (Some r') c") simp_all
  qed
qed

lemma find_loop_total:
  "list_all (valid_ptr h) L \<Longrightarrow> \<exists>res. findRemoteResource_loop h L (Some r) acc = Inr res"
proof (induction L arbitrary: acc)
  case Nil
  show ?case by simp
next
  case (Cons it rest)
  then obtain obj where obj: "load h it = Inr obj"
    using valid_ptr_load by fastforce
  have rest: "list_all (valid_ptr h) rest" using Cons.prems by simp
  show ?case
    using obj Cons.IH [OF rest]
    by (cases "getRemoteResource obj") (simp_all add: same_key)
qed

subsection \<open>The registry invariant\<close>

lemma registry_inv_empty: "registry_inv empty_state"
  by (simp add: registry_inv_def registry_keys_def empty_state_def)

lemma registry_inv_admit:
  assumes inv: "registry_inv s"
    and nf: "findRemoteResource s (Some r) = Inr None"
  shows "registry_inv
           (s\<lparr>store := (store s)(next_free s := Some \<lparr>remoteObject = Some r, pDestroyCB = cb\<rparr>),
              next_free := Suc (next_free s),
              hostingObjectList := hostingObjectList s @ [Some (next_free s)]\<rparr>)"
    (is "registry_inv ?s'")
proof -
  let ?L = "hostingObjectList s"
  have bound: "\<And>p. p \<in> set ?L \<Longrightarrow> \<exists>a. p = Some a \<and> a < next_free s"
    using inv by (auto simp: registry_inv_def list_all_iff split: option.splits)
  have old: "\<And>p. p \<in> set ?L \<Longrightarrow> wrapped ?s' p = wrapped s p"
    using bound by (fastforce simp: wrapped_def load_def)
  have new: "wrapped ?s' (Some (next_free s)) = Some r"
    by (simp add: wrapped_def load_def getRemoteResource_def)
  have keys: "registry_keys ?s' = registry_keys s @ [Some (dedup_key r)]"
    using old new by (simp add: registry_keys_def)
  have fresh: "Some (dedup_key r) \<notin> set (registry_keys s)"
  proof
    assume "Some (dedup_key r) \<in> set (registry_keys s)"
    then obtain p where p: "p \<in> set ?L"
      and m: "map_option dedup_key (wrapped s p) = Some (dedup_key r)"
      unfolding registry_keys_def by (metis (mono_tags, lifting) imageE list.set_map)
    from m obtain r' where w: "wrapped s p = Some r'" and k: "dedup_key r' = dedup_key r"
      by (cases "wrapped s p") simp_all
    from w obtain obj where "load (store s) p = Inr obj" "getRemoteResource obj = Some r'"
      using wrapped_Some_iff by blast
    with nf p have "dedup_key r' \<noteq> dedup_key r"
      unfolding findRemoteResource_def by (rule find_loop_None_no_match)
    with k show False by simp
  qed
  have "list_all (\<lambda>p. case p of None \<Rightarrow> False | Some a \<Rightarrow> a < next_free ?s')
          (hostingObjectList ?s')"
    using bound by (fastforce simp: list_all_iff)
  moreover have "list_all (\<lambda>k. k \<noteq> None) (registry_keys ?s')"
    using inv keys by (simp add: registry_inv_def)
  moreover have "distinct (registry_keys ?s')"
    using inv keys fresh by (simp add: registry_inv_def)
  ultimately show ?thesis
    unfolding registry_inv_def by blast
qed

text \<open>The handler leaves the state as it is or admits the candidate at the next address.\<close>

lemma discoverHandler_cases:
  "snd (discoverHandler s c) = s \<or>
   (\<exists>r cb. c = Some r \<and> findRemoteResource s (Some r) = Inr None \<and>
      snd (discoverHandler s c) =
        s\<lparr>store := (store s)(next_free s := Some \<lparr>remoteObject = Some r, pDestroyCB = cb\<rparr>),
          next_free := Suc (next_free s),
          hostingObjectList := hostingObjectList s @ [Some (next_free s)]\<rparr>)"
  by (auto simp: discoverHandler_def Let_def initializeHostingObject_def new_HostingObject_def
           split: option.splits sum.splits)

lemma registry_inv_discoverHandler:
  "registry_inv s \<Longrightarrow> registry_inv (snd (discoverHandler s c))"
  using discoverHandler_cases [of s c] registry_inv_admit by metis

lemma registry_inv_discoverAll:
  "registry_inv s \<Longrightarrow> registry_inv (discoverAll s cs)"
  by (induction cs arbitrary: s) (simp_all add: registry_inv_discoverHandler)

lemma registry_inv_distinct: "registry_inv s \<Longrightarrow> distinct (hostingObjectList s)"
  unfolding registry_inv_def registry_keys_def by (simp add: distinct_map)

subsection \<open>Removal\<close>

lemma std_find_le: "std_find xs v \<le> length xs"
  by (induction xs) simp_all

lemma std_find_end: "std_find xs v = length xs \<longleftrightarrow> v \<notin> set xs"
proof (induction xs)
  case Nil
  show ?case by simp
next
  case (Cons x xs)
  have "std_find xs v \<le> length xs" by (rule std_find_le)
  with Cons show ?case by auto
qed

lemma erase_std_find: "v \<in> set xs \<Longrightarrow> erase xs (std_find xs v) = remove1 v xs"
  by (induction xs) auto

lemma destroyed_absent:
  "p \<notin> set (hostingObjectList s) \<Longrightarrow> destroyedHostingObject s p = s"
  by (simp add: destroyedHostingObject_def std_find_end Let_def)

lemma destroyed_present:
  "p \<in> set (hostingObjectList s) \<Longrightarrow>
   destroyedHostingObject s p =
     s\<lparr>cout := cout s @ [''destroy hosting object.'' @ [CHR 0x0A]],
       hostingObjectList := remove1 p (hostingObjectList s)\<rparr>"
  by (simp add: destroyedHostingObject_def std_find_end erase_std_find Let_def)

lemma destroyed_list:
  "hostingObjectList (destroyedHostingObject s p) = remove1 p (hostingObjectList s)"
  by (cases "p \<in> set (hostingObjectList s)")
     (simp_all add: destroyed_absent destroyed_present remove1_idem)

text \<open>
  The pointers of the registry stay pairwise different under every operation that writes
  the list: admission appends a pointer to a new object, removal erases one.
\<close>

lemma distinct_destroyed:
  "distinct (hostingObjectList s) \<Longrightarrow> distinct (hostingObjectList (destroyedHostingObject s p))"
  by (simp add: destroyed_list)

lemma registry_inv_destroyed:
  assumes "registry_inv s"
  shows "registry_inv (destroyedHostingObject s p)"
proof -
  let ?s' = "destroyedHostingObject s p"
  have L: "hostingObjectList ?s' = remove1 p (hostingObjectList s)"
    by (rule destroyed_list)
  have st: "store ?s' = store s" "next_free ?s' = next_free s"
    by (cases "p \<in> set (hostingObjectList s)"; simp add: destroyed_absent destroyed_present)+
  have w: "\<And>q. wrapped ?s' q = wrapped s q"
    by (simp add: wrapped_def st)
  have keys: "registry_keys ?s' = map (\<lambda>q. map_option dedup_key (wrapped s q))
                                     (remove1 p (hostingObjectList s))"
    by (simp add: registry_keys_def L w)
  have d: "distinct (hostingObjectList s)"
    using assms by (rule registry_inv_distinct)
  have sub: "set (remove1 p (hostingObjectList s)) \<subseteq> set (hostingObjectList s)"
    by (rule set_remove1_subset)
  have inj: "inj_on (\<lambda>q. map_option dedup_key (wrapped s q)) (set (hostingObjectList s))"
    using assms by (simp add: registry_inv_def registry_keys_def distinct_map)
  have "distinct (registry_keys ?s')"
    unfolding keys using d inj sub by (simp add: distinct_map inj_on_subset)
  moreover have "list_all (\<lambda>k. k \<noteq> None) (registry_keys ?s')"
    unfolding keys using assms sub
    by (auto simp: registry_inv_def registry_keys_def list_all_iff)
  moreover have "list_all (\<lambda>q. case q of None \<Rightarrow> False | Some a \<Rightarrow> a < next_free ?s')
                   (hostingObjectList ?s')"
    unfolding L st using assms sub by (auto simp: registry_inv_def list_all_iff)
  ultimately show ?thesis
    unfolding registry_inv_def by blast
qed

subsection \<open>Stopping\<close>

lemma stopHosting_loop_id: "stopHosting_loop s xs = s"
  by (induction xs) (simp_all add: Let_def)

lemma stopHosting_registry:
  "hostingObjectList (stopHosting s) = hostingObjectList s \<and> store (stopHosting s) = store s"
  by (simp add: stopHosting_def stopHosting_loop_id Let_def)

subsection \<open>Singleton accessor\<close>

lemma getInstance_set:
  "s_instance p = Some a \<Longrightarrow> getInstance p = Some (Some a, p)"
  by (simp add: getInstance_def)

lemma getInstance_calls_set:
  "s_instance p = Some a \<Longrightarrow> getInstance_calls n p = Some (replicate n (Some a), p)"
  by (induction n) (simp_all add: getInstance_set)

lemma getInstance_first:
  "getInstance initial_process =
     Some (Some 0,
           \<lparr>s_instance = Some 0, s_mutexForCreation = False,
            coordinators = [\<lparr>pPresenceCB = True, pDiscoveryCB = True, discoveryManager = True\<rparr>],
            initializeCalls = Suc 0\<rparr>)"
  by (simp add: getInstance_def initial_process_def lock_def unlock_def new_ResourceHosting_def
      initializeResourceHosting_def Let_def)

subsection \<open>Example runs\<close>

lemma sweep_example:
  "hostingObjectList (discoverAll empty_state [Some light, Some light, Some fan])
     = [Some 0, Some 1]
   \<and> wrapped (discoverAll empty_state [Some light, Some light, Some fan]) (Some 0) = Some light
   \<and> wrapped (discoverAll empty_state [Some light, Some light, Some fan]) (Some 1) = Some fan"
  by (simp add: discoverHandler_def string_compare_def string_size_def HOSTING_TAG_SIZE_def
      HOSTING_TAG_def findRemoteResource_def empty_state_def Let_def light_def fan_def
      descriptor_def initializeHostingObject_def new_HostingObject_def load_def
      getRemoteResource_def isSameRemoteResource_def wrapped_def)

lemma two_mirrors_list: "hostingObjectList two_mirrors = [Some 0, Some 1]"
  by (simp add: two_mirrors_def discoverHandler_def string_compare_def string_size_def
      HOSTING_TAG_SIZE_def HOSTING_TAG_def findRemoteResource_def empty_state_def Let_def
      light_def fan_def descriptor_def initializeHostingObject_def new_HostingObject_def
      load_def getRemoteResource_def isSameRemoteResource_def)

section \<open>The claims\<close>

text \<open>
  Claim C1. Registry deduplication: after any sequence of invocations of the
  discovery-candidate handler that starts from the empty registry, any two entries at
  different positions of the registry wrap descriptors, and the (address, URI) pairs of
  the two descriptors differ.
\<close>

theorem registry_deduplicated:
  "\<forall>i j. i < length (hostingObjectList (discoverAll empty_state cs)) \<and>
         j < length (hostingObjectList (discoverAll empty_state cs)) \<and> i \<noteq> j \<longrightarrow>
     (\<exists>r1 r2.
        wrapped (discoverAll empty_state cs)
          (hostingObjectList (discoverAll empty_state cs) ! i) = Some r1
      \<and> wrapped (discoverAll empty_state cs)
          (hostingObjectList (discoverAll empty_state cs) ! j) = Some r2
      \<and> (getAddress r1, getUri r1) \<noteq> (getAddress r2, getUri r2))"
proof (intro allI impI)
  fix i j
  let ?s = "discoverAll empty_state cs"
  let ?L = "hostingObjectList ?s"
  assume ij: "i < length ?L \<and> j < length ?L \<and> i \<noteq> j"
  have inv: "registry_inv ?s"
    using registry_inv_empty by (rule registry_inv_discoverAll)
  have len: "length (registry_keys ?s) = length ?L"
    by (simp add: registry_keys_def)
  have ki: "registry_keys ?s ! i = map_option dedup_key (wrapped ?s (?L ! i))"
    and kj: "registry_keys ?s ! j = map_option dedup_key (wrapped ?s (?L ! j))"
    using ij by (simp_all add: registry_keys_def)
  have "registry_keys ?s ! i \<noteq> None" "registry_keys ?s ! j \<noteq> None"
    using inv ij len by (simp_all add: registry_inv_def list_all_length)
  then obtain r1 r2 where r: "wrapped ?s (?L ! i) = Some r1" "wrapped ?s (?L ! j) = Some r2"
    using ki kj by auto
  have "registry_keys ?s ! i \<noteq> registry_keys ?s ! j"
    using inv ij len by (simp add: registry_inv_def nth_eq_iff_index_eq)
  then have "dedup_key r1 \<noteq> dedup_key r2"
    using ki kj r by simp
  then show "\<exists>r1 r2. wrapped ?s (?L ! i) = Some r1 \<and> wrapped ?s (?L ! j) = Some r2
          \<and> (getAddress r1, getUri r1) \<noteq> (getAddress r2, getUri r2)"
    using r by (simp add: dedup_key_def)
qed

text \<open>
  The sweep that delivers the light twice and the fan once leaves two entries, and the
  theorem applies to them.
\<close>

theorem registry_deduplicated_witness:
  "(0 < length (hostingObjectList (discoverAll empty_state [Some light, Some light, Some fan])) \<and>
    1 < length (hostingObjectList (discoverAll empty_state [Some light, Some light, Some fan])) \<and>
    (0::nat) \<noteq> 1) \<and>
   (\<exists>r1 r2.
      wrapped (discoverAll empty_state [Some light, Some light, Some fan])
        (hostingObjectList (discoverAll empty_state [Some light, Some light, Some fan]) ! 0)
        = Some r1
    \<and> wrapped (discoverAll empty_state [Some light, Some light, Some fan])
        (hostingObjectList (discoverAll empty_state [Some light, Some light, Some fan]) ! 1)
        = Some r2
    \<and> (getAddress r1, getUri r1) \<noteq> (getAddress r2, getUri r2))"
proof -
  let ?s = "discoverAll empty_state [Some light, Some light, Some fan]"
  have "length (hostingObjectList ?s) = 2"
    using sweep_example by simp
  then have hyp: "0 < length (hostingObjectList ?s) \<and> 1 < length (hostingObjectList ?s)
                  \<and> (0::nat) \<noteq> 1"
    by simp
  with registry_deduplicated [of "[Some light, Some light, Some fan]"] show ?thesis
    by blast
qed

text \<open>
  Claim C2. \<open>stopHosting\<close> is claimed to release every hosting object of the registry
  and to leave the registry empty. The code does not: with one hosting object admitted,
  the registry after \<open>stopHosting\<close> still holds the pointer to it.
\<close>

theorem stopHosting_keeps_registry:
  "hostingObjectList (snd (discoverHandler empty_state (Some light))) = [Some 0] \<and>
   hostingObjectList (stopHosting (snd (discoverHandler empty_state (Some light)))) = [Some 0]"
  by (simp add: stopHosting_registry discoverHandler_def string_compare_def string_size_def
      HOSTING_TAG_SIZE_def HOSTING_TAG_def findRemoteResource_def empty_state_def Let_def
      light_def descriptor_def)

text \<open>
  Claim C3. A candidate whose URI does not end with the tag is claimed to be dropped
  without an error, also when the URI is shorter than the tag. For the six-character URI
  of the led the handler throws \<open>std::out_of_range\<close>; the registry is not written.
\<close>

theorem discoverHandler_short_uri_throws:
  "discoverHandler empty_state (Some led) = (Inl OutOfRange, empty_state)"
  by (simp add: discoverHandler_def string_compare_def string_size_def HOSTING_TAG_SIZE_def
      led_def descriptor_def)

text \<open>
  Claim C4. When the subscription step of \<open>startHosting\<close> throws, \<open>startHosting\<close>
  throws the same exception, and the coordinator is left as it was: no discovery query
  is issued and the registry is unchanged, so an empty registry stays empty.
\<close>

theorem startHosting_subscription_failure:
  "subscribePresence env (''coap://'' @ OC_MULTICAST_PREFIX env) CT_DEFAULT = Some e \<Longrightarrow>
   startHosting env s = (Inl e, s)"
  by (cases e)
     (simp_all add: startHosting_def requestMulticastPresence_def startHosting_catch_def)

theorem startHosting_subscription_failure_witness:
  "startHosting (failing_subscription PlatformException) empty_state
     = (Inl PlatformException, empty_state) \<and>
   startHosting (failing_subscription InvalidParameterException) empty_state
     = (Inl InvalidParameterException, empty_state) \<and>
   startHosting (failing_subscription (OtherException 7)) empty_state
     = (Inl (OtherException 7), empty_state) \<and>
   hostingObjectList empty_state = [] \<and> discoveryQueries empty_state = []"
  using startHosting_subscription_failure
          [of "failing_subscription PlatformException" PlatformException empty_state]
        startHosting_subscription_failure
          [of "failing_subscription InvalidParameterException" InvalidParameterException
              empty_state]
        startHosting_subscription_failure
          [of "failing_subscription (OtherException 7)" "OtherException 7" empty_state]
  by (simp add: failing_subscription_def empty_state_def)

text \<open>
  Claim C5. For the result classes alive (\<open>OC_STACK_OK\<close>), continuing announcement and
  resource created, the liveness-event handler hands exactly one query to the discovery
  manager, for the origin address and with the hosting resource-type filter. For every
  other result class, named or not, it returns normally and changes nothing.
\<close>

theorem presenceHandler_queries:
  "(ret \<in> {OC_STACK_OK, OC_STACK_CONTINUE, OC_STACK_RESOURCE_CREATED} \<longrightarrow>
      snd (presenceHandler env s ret seq addr) =
        s\<lparr>discoveryQueries := discoveryQueries s @
            [\<lparr>query_host = addr,
              query_uri = OC_MULTICAST_DISCOVERY_URI env @ ''?rt=Resource.Hosting'',
              query_type = CT_DEFAULT\<rparr>]\<rparr>)
   \<and> (ret \<notin> {OC_STACK_OK, OC_STACK_CONTINUE, OC_STACK_RESOURCE_CREATED} \<longrightarrow>
      presenceHandler env s ret seq addr = (Inr (), s))"
  by (cases ret)
     (simp_all add: presenceHandler_def requestDiscovery_def Let_def split: option.splits)

theorem presenceHandler_queries_witness:
  "discoveryQueries (snd (presenceHandler working empty_state OC_STACK_OK 1 ''node-9'')) =
     [\<lparr>query_host = ''node-9'', query_uri = ''/oic/res?rt=Resource.Hosting'',
       query_type = CT_DEFAULT\<rparr>] \<and>
   presenceHandler working empty_state (OC_STACK_other 4711) 2 ''node-9'' = (Inr (), empty_state) \<and>
   presenceHandler working empty_state OC_STACK_TIMEOUT 3 ''node-9'' = (Inr (), empty_state)"
  using presenceHandler_queries [of OC_STACK_OK working empty_state 1 "''node-9''"]
        presenceHandler_queries [of "OC_STACK_other 4711" working empty_state 2 "''node-9''"]
        presenceHandler_queries [of OC_STACK_TIMEOUT working empty_state 3 "''node-9''"]
  by (simp add: working_def empty_state_def)

text \<open>
  Claim C6. Removal is idempotent. For every state, removing a pointer that is not in the
  registry changes nothing; in particular a second removal of a target that the first
  removal has taken out leaves the state of the first. In a registry whose pointers are
  pairwise different, as they are in every registry built by admissions and removals,
  the target is out of the registry after one removal. The function has no failing
  branch.
\<close>

theorem removal_idempotent:
  "(p \<notin> set (hostingObjectList s) \<longrightarrow> destroyedHostingObject s p = s) \<and>
   (p \<notin> set (hostingObjectList (destroyedHostingObject s p)) \<longrightarrow>
      destroyedHostingObject (destroyedHostingObject s p) p = destroyedHostingObject s p) \<and>
   (distinct (hostingObjectList s) \<longrightarrow>
      p \<notin> set (hostingObjectList (destroyedHostingObject s p)) \<and>
      destroyedHostingObject (destroyedHostingObject s p) p = destroyedHostingObject s p)"
proof (intro conjI impI)
  show "p \<notin> set (hostingObjectList s) \<Longrightarrow> destroyedHostingObject s p = s"
    by (rule destroyed_absent)
next
  show "p \<notin> set (hostingObjectList (destroyedHostingObject s p)) \<Longrightarrow>
        destroyedHostingObject (destroyedHostingObject s p) p = destroyedHostingObject s p"
    by (rule destroyed_absent)
next
  assume d: "distinct (hostingObjectList s)"
  then show gone: "p \<notin> set (hostingObjectList (destroyedHostingObject s p))"
    by (simp add: destroyed_list)
  then show "destroyedHostingObject (destroyedHostingObject s p) p = destroyedHostingObject s p"
    by (rule destroyed_absent)
qed

text \<open>
  In the registry of the light and the fan, removing a pointer that was never admitted
  changes nothing, and removing the light twice leaves the fan alone.
\<close>

theorem removal_idempotent_witness:
  "(Some 7 \<notin> set (hostingObjectList two_mirrors)
      \<and> destroyedHostingObject two_mirrors (Some 7) = two_mirrors) \<and>
   (distinct (hostingObjectList two_mirrors) \<and>
      hostingObjectList (destroyedHostingObject two_mirrors (Some 0)) = [Some 1] \<and>
      Some 0 \<notin> set (hostingObjectList (destroyedHostingObject two_mirrors (Some 0))) \<and>
      destroyedHostingObject (destroyedHostingObject two_mirrors (Some 0)) (Some 0)
        = destroyedHostingObject two_mirrors (Some 0))"
  using removal_idempotent [of "Some 7" two_mirrors] removal_idempotent [of "Some 0" two_mirrors]
  by (simp add: two_mirrors_list destroyed_list)

text \<open>
  Claim C7. The equality test of the deduplication returns true exactly when the two
  address strings are equal and the two URI strings are equal; the identifier of either
  descriptor does not change the answer.
\<close>

theorem isSameRemoteResource_address_and_uri:
  "isSameRemoteResource (Some r1) (Some r2)
     = Inr (getAddress r1 = getAddress r2 \<and> getUri r1 = getUri r2)
   \<and> isSameRemoteResource (Some (r1\<lparr>getID := i\<rparr>)) (Some (r2\<lparr>getID := j\<rparr>))
     = isSameRemoteResource (Some r1) (Some r2)"
  by (simp add: isSameRemoteResource_def)

text \<open>
  Claim C8. In any sequence of at least one call of \<open>getInstance\<close> from the initial
  process, every call returns, all calls return the pointer to the same coordinator, one
  coordinator has been constructed and \<open>initializeResourceHosting\<close> has run once.
\<close>

theorem getInstance_constructs_once:
  "getInstance_calls (Suc n) initial_process =
     Some (replicate (Suc n) (Some 0),
           \<lparr>s_instance = Some 0, s_mutexForCreation = False,
            coordinators = [\<lparr>pPresenceCB = True, pDiscoveryCB = True, discoveryManager = True\<rparr>],
            initializeCalls = Suc 0\<rparr>)"
  by (simp add: getInstance_first getInstance_calls_set)

text \<open>
  Claim C9. A candidate whose URI is the tag itself passes the filter; when every entry
  of the registry is a valid pointer and no entry wraps a descriptor with the address and
  the URI of the candidate, the candidate is admitted: a hosting object bound to it is
  put at the next address and its pointer is appended to the registry.
\<close>

theorem bare_tag_uri_admitted:
  assumes uri: "getUri r = ''/hosting''"
    and valid: "entries_valid s"
    and nomatch: "\<forall>p \<in> set (hostingObjectList s). \<forall>r'. wrapped s p = Some r' \<longrightarrow>
                    \<not> (getAddress r' = getAddress r \<and> getUri r' = getUri r)"
  shows "discoverHandler s (Some r) =
     (Inr (), s\<lparr>store := (store s)(next_free s := Some \<lparr>remoteObject = Some r,
                              pDestroyCB = BoundDestroyed (Some (next_free s))\<rparr>),
                next_free := Suc (next_free s),
                hostingObjectList := hostingObjectList s @ [Some (next_free s)]\<rparr>)"
proof -
  have "\<forall>p \<in> set (hostingObjectList s). \<exists>obj. load (store s) p = Inr obj \<and>
          (\<forall>r'. getRemoteResource obj = Some r' \<longrightarrow> dedup_key r' \<noteq> dedup_key r)"
  proof
    fix p
    assume p: "p \<in> set (hostingObjectList s)"
    then have "valid_ptr (store s) p"
      using valid by (simp add: entries_valid_def list_all_iff)
    then obtain obj where obj: "load (store s) p = Inr obj"
      using valid_ptr_load by blast
    then have "\<forall>r'. getRemoteResource obj = Some r' \<longrightarrow> dedup_key r' \<noteq> dedup_key r"
      using nomatch p by (simp add: wrapped_def dedup_key_def)
    with obj show "\<exists>obj. load (store s) p = Inr obj \<and>
          (\<forall>r'. getRemoteResource obj = Some r' \<longrightarrow> dedup_key r' \<noteq> dedup_key r)"
      by blast
  qed
  then have "findRemoteResource s (Some r) = Inr None"
    unfolding findRemoteResource_def by (rule find_loop_no_match_acc)
  then show ?thesis
    using compare_tag_only
    by (simp add: discoverHandler_def uri Let_def initializeHostingObject_def
        new_HostingObject_def)
qed

theorem bare_tag_uri_admitted_witness:
  "getUri bare_tag = ''/hosting'' \<and> entries_valid with_unbound_entry \<and>
   fst (discoverHandler with_unbound_entry (Some bare_tag)) = Inr () \<and>
   hostingObjectList (snd (discoverHandler with_unbound_entry (Some bare_tag)))
     = [Some 0, Some 1, Some 2] \<and>
   wrapped (snd (discoverHandler with_unbound_entry (Some bare_tag))) (Some 2) = Some bare_tag"
proof -
  have uri: "getUri bare_tag = ''/hosting''"
    by (simp add: bare_tag_def descriptor_def)
  have valid: "entries_valid with_unbound_entry"
    by (simp add: entries_valid_def valid_ptr_def load_def with_unbound_entry_def)
  have nomatch: "\<forall>p \<in> set (hostingObjectList with_unbound_entry).
                   \<forall>r'. wrapped with_unbound_entry p = Some r' \<longrightarrow>
                     \<not> (getAddress r' = getAddress bare_tag \<and> getUri r' = getUri bare_tag)"
    by (simp add: with_unbound_entry_def wrapped_def load_def getRemoteResource_def
        new_HostingObject_def light_def bare_tag_def descriptor_def)
  show ?thesis
    using bare_tag_uri_admitted [OF uri valid nomatch] uri valid
    by (simp add: with_unbound_entry_def wrapped_def load_def getRemoteResource_def)
qed

text \<open>
  Claim C10. An entry whose hosting object wraps no descriptor is never the result of the
  lookup, whatever the candidate. When every entry is a valid pointer, the lookup returns
  what it returns on the registry without such entries, and for a candidate that is not
  null it returns a result and does not fail.
\<close>

theorem lookup_skips_unbound_entries:
  "(\<forall>p \<in> set (hostingObjectList s). wrapped s p = None \<longrightarrow> findRemoteResource s c \<noteq> Inr p) \<and>
   (entries_valid s \<longrightarrow>
      findRemoteResource s c =
        findRemoteResource
          (s\<lparr>hostingObjectList := filter (\<lambda>p. wrapped s p \<noteq> None) (hostingObjectList s)\<rparr>) c
      \<and> (c \<noteq> None \<longrightarrow> (\<exists>res. findRemoteResource s c = Inr res)))"
proof (intro conjI ballI impI)
  fix p
  assume "p \<in> set (hostingObjectList s)" "wrapped s p = None"
  then show "findRemoteResource s c \<noteq> Inr p"
    by (rule find_never_null_descriptor)
next
  assume v: "entries_valid s"
  have "(\<lambda>p. wrapped s p \<noteq> None) =
        (\<lambda>p. case load (store s) p of Inl e \<Rightarrow> False
              | Inr obj \<Rightarrow> getRemoteResource obj \<noteq> None)"
    by (rule ext) (simp add: wrapped_def split: sum.splits)
  then show "findRemoteResource s c =
        findRemoteResource
          (s\<lparr>hostingObjectList := filter (\<lambda>p. wrapped s p \<noteq> None) (hostingObjectList s)\<rparr>) c"
    using v find_loop_filter [of "store s" "hostingObjectList s" c None]
    by (simp add: findRemoteResource_def entries_valid_def)
next
  assume v: "entries_valid s" and "c \<noteq> None"
  then obtain r where "c = Some r" by auto
  then show "\<exists>res. findRemoteResource s c = Inr res"
    using v find_loop_total by (simp add: findRemoteResource_def entries_valid_def)
qed

theorem lookup_skips_unbound_entries_witness:
  "(Some 0 \<in> set (hostingObjectList with_unbound_entry)
      \<and> wrapped with_unbound_entry (Some 0) = None
      \<and> findRemoteResource with_unbound_entry (Some light) \<noteq> Inr (Some 0)) \<and>
   (entries_valid with_unbound_entry \<and>
      findRemoteResource with_unbound_entry (Some light) = Inr (Some 1) \<and>
      findRemoteResource (with_unbound_entry\<lparr>hostingObjectList := [Some 1]\<rparr>) (Some light)
        = Inr (Some 1))"
  using lookup_skips_unbound_entries [of with_unbound_entry "Some light"]
  by (simp add: with_unbound_entry_def entries_valid_def valid_ptr_def load_def wrapped_def
      new_HostingObject_def getRemoteResource_def findRemoteResource_def
      isSameRemoteResource_def light_def descriptor_def)

end
